theory Spec2Isabelle
  imports Complex_Main "HOL-Library.Word"
begin

section \<open>The publishing workflow (.github/workflows/publish.yml)\<close>

subsection \<open>The workflow file as data\<close>

text \<open>
  The workflow file is declarative. It is embedded as a record holding what the file
  declares: the \<open>on.push\<close> filters, and for every job its identifier, its \<open>needs\<close>
  list and the names of its steps in order.
\<close>

record push_filter =
  branches :: "string list option"
  tags :: "string list option"

record job =
  job_id :: string
  needs :: "string list"
  steps :: "string list"

record workflow =
  on_push :: "push_filter option"
  jobs :: "job list"

definition build_and_publish :: job where
  "build_and_publish =
     \<lparr>job_id = ''build-and-publish'',
      needs = [],
      steps = [''Checkout repository'', ''Set up Python'', ''Install dependencies'',
               ''Verify version from tag'', ''Build package (pyproject.toml)'',
               ''Publish to PyPI'', ''Create GitHub Release'']\<rparr>"

definition deploy_docs :: job where
  "deploy_docs =
     \<lparr>job_id = ''deploy-docs'',
      needs = [''build-and-publish''],
      steps = [''Checkout repository'', ''Set up Python'',
               ''Install MkDocs and dependencies'', ''Build MkDocs documentation'',
               ''Deploy to GitHub Pages'']\<rparr>"

definition publish_workflow :: workflow where
  "publish_workflow =
     \<lparr>on_push = Some \<lparr>branches = None, tags = Some [''v*'']\<rparr>,
      jobs = [build_and_publish, deploy_docs]\<rparr>"

subsection \<open>Trigger filters\<close>

text \<open>
  A filter pattern of the platform is a glob: \<open>*\<close> stands for zero or more characters
  other than \<open>/\<close>, \<open>**\<close> for zero or more characters of any kind, and every other
  character for itself. (The remaining special characters of the pattern language,
  \<open>?\<close>, \<open>+\<close>, \<open>[]\<close> and \<open>!\<close>, do not occur in this workflow and are read as
  themselves here.)
\<close>

datatype token = Lit char | Star | Globstar

fun tokens :: "string \<Rightarrow> token list" where
  "tokens [] = []"
| "tokens [c] = (if c = CHR ''*'' then [Star] else [Lit c])"
| "tokens (c # d # p) =
     (if c = CHR ''*'' \<and> d = CHR ''*'' then Globstar # tokens p
      else if c = CHR ''*'' then Star # tokens (d # p)
      else Lit c # tokens (d # p))"

fun matches :: "token list \<Rightarrow> string \<Rightarrow> bool" where
  "matches [] s = (s = [])"
| "matches (Lit c # ts) [] = False"
| "matches (Lit c # ts) (d # s) = (c = d \<and> matches ts s)"
| "matches (Star # ts) [] = matches ts []"
| "matches (Star # ts) (d # s) =
     (matches ts (d # s) \<or> (d \<noteq> CHR ''/'' \<and> matches (Star # ts) s))"
| "matches (Globstar # ts) [] = matches ts []"
| "matches (Globstar # ts) (d # s) = (matches ts (d # s) \<or> matches (Globstar # ts) s)"

definition filter_match :: "string \<Rightarrow> string \<Rightarrow> bool" where
  "filter_match pattern name = matches (tokens pattern) name"

text \<open>
  What reaches the platform: a push of a branch or of a tag, or an event of another kind
  (a pull request, a manual dispatch, ...).
\<close>

datatype git_ref = Branch string | Tag string

datatype event = Push git_ref | Other_event string

text \<open>
  A workflow whose \<open>on\<close> has no \<open>push\<close> entry does not run on a push. With a \<open>push\<close>
  entry that has neither filter every push runs it. Where only one of \<open>branches\<close>
  and \<open>tags\<close> is given, a push of the other kind of ref does not run it, and a push of
  the filtered kind runs it when some pattern of the list matches the name.
\<close>

definition ref_passes :: "push_filter \<Rightarrow> git_ref \<Rightarrow> bool" where
  "ref_passes f r =
     (case (branches f, tags f) of
        (None, None) \<Rightarrow> True
      | _ \<Rightarrow>
        (case r of
           Branch b \<Rightarrow> (case branches f of None \<Rightarrow> False
                        | Some ps \<Rightarrow> list_ex (\<lambda>p. filter_match p b) ps)
         | Tag t \<Rightarrow> (case tags f of None \<Rightarrow> False
                     | Some ps \<Rightarrow> list_ex (\<lambda>p. filter_match p t) ps)))"

definition triggered :: "workflow \<Rightarrow> event \<Rightarrow> bool" where
  "triggered wfl ev =
     (case ev of
        Push r \<Rightarrow> (case on_push wfl of None \<Rightarrow> False | Some f \<Rightarrow> ref_passes f r)
      | Other_event _ \<Rightarrow> False)"

subsection \<open>The step \<open>get_version\<close>\<close>

text \<open>
  The step runs three shell commands:
  \<^verbatim>\<open>TAG_VERSION=${GITHUB_REF#refs/tags/v}\<close>,
  \<^verbatim>\<open>echo "VERSION=$TAG_VERSION" >> $GITHUB_ENV\<close> and
  \<^verbatim>\<open>echo "Publishing version: $TAG_VERSION"\<close>.
  The expansion \<open>${parameter#word}\<close> removes \<open>word\<close> from the front of the value when
  the value starts with it, and leaves the value as it is otherwise (the word here has
  no pattern character, so it stands for itself). An unset variable expands to the
  empty string.
\<close>

definition newline :: char where
  "newline = CHR 0x0A"

definition expand :: "(string \<rightharpoonup> string) \<Rightarrow> string \<Rightarrow> string" where
  "expand env x = (case env x of None \<Rightarrow> [] | Some v \<Rightarrow> v)"

definition remove_prefix :: "string \<Rightarrow> string \<Rightarrow> string" where
  "remove_prefix word v = (if take (length word) v = word then drop (length word) v else v)"

text \<open>
  The step, from the environment and the content of the file \<open>$GITHUB_ENV\<close> to the new
  content of that file and what is printed.
\<close>

definition get_version :: "(string \<rightharpoonup> string) \<Rightarrow> string \<Rightarrow> string \<times> string" where
  "get_version env env_file =
     (let TAG_VERSION = remove_prefix ''refs/tags/v'' (expand env ''GITHUB_REF'')
      in (env_file @ ''VERSION='' @ TAG_VERSION @ [newline],
          ''Publishing version: '' @ TAG_VERSION @ [newline]))"

text \<open>
  After a step the runner reads the file line by line. An empty line is skipped, a line
  \<open>NAME=value\<close> is cut at its first \<open>=\<close> and sets \<open>NAME\<close> for the steps that follow;
  a line without \<open>=\<close> or with an empty name is refused. A line whose \<open><<\<close> comes
  before its first \<open>=\<close> opens a multi-line value, which is not modelled: such a file
  is refused here too.
\<close>

datatype env_error = Invalid_format string | Multi_line string

fun lines_acc :: "string \<Rightarrow> string \<Rightarrow> string list" where
  "lines_acc cur [] = (if cur = [] then [] else [cur])"
| "lines_acc cur (c # cs) =
     (if c = newline then cur # lines_acc [] cs else lines_acc (cur @ [c]) cs)"

fun has_heredoc :: "string \<Rightarrow> bool" where
  "has_heredoc (c # d # s) = ((c = CHR ''<'' \<and> d = CHR ''<'') \<or> has_heredoc (d # s))"
| "has_heredoc _ = False"

definition parse_env_line :: "string \<Rightarrow> env_error + (string \<times> string)" where
  "parse_env_line l =
     (let name = takeWhile (\<lambda>c. c \<noteq> CHR ''='') l;
          rest = dropWhile (\<lambda>c. c \<noteq> CHR ''='') l
      in if has_heredoc name then Inl (Multi_line l)
         else if rest = [] \<or> name = [] then Inl (Invalid_format l)
         else Inr (name, tl rest))"

fun set_env_lines :: "string list \<Rightarrow> (string \<rightharpoonup> string) \<Rightarrow> env_error + (string \<rightharpoonup> string)" where
  "set_env_lines [] env = Inr env"
| "set_env_lines (l # ls) env =
     (if l = [] then set_env_lines ls env
      else case parse_env_line l of
             Inl e \<Rightarrow> Inl e
           | Inr (name, v) \<Rightarrow> set_env_lines ls (env(name \<mapsto> v)))"

text \<open>
  The step as the runner executes it: the file starts empty, the commands run, and the
  file is read back into the environment of the following steps.
\<close>

definition run_get_version :: "(string \<rightharpoonup> string) \<Rightarrow> env_error + (string \<rightharpoonup> string)" where
  "run_get_version env = set_env_lines (lines_acc [] (fst (get_version env []))) env"

text \<open>The full ref of a pushed tag, and its short name (\<open>github.ref_name\<close>).\<close>

definition tag_ref :: "string \<Rightarrow> string" where
  "tag_ref name = ''refs/tags/'' @ name"

subsection \<open>Runs of the workflow\<close>

text \<open>
  A job of a run is pending, running with \<open>k\<close> of its steps done, or finished: with
  success, with a failure, or skipped. The platform starts a pending job once every job
  it \<open>needs\<close> has succeeded, and skips it once one of them has failed or was skipped
  (no job of this workflow has an \<open>if\<close> condition that would let it run after a
  failure). The steps of a running job run in order; a step that fails ends the job with
  a failure (no step has \<open>continue-on-error\<close>), and the job succeeds when all its steps
  are done. Jobs run side by side, so a run is any sequence of these actions in which
  each one is allowed where it stands.
\<close>

datatype status = Pending | Running nat | Succeeded | Failed | Skipped

datatype action =
  Start string | Skip string | Step_ok string | Step_fail string | Complete string

fun job_of :: "action \<Rightarrow> string" where
  "job_of (Start j) = j"
| "job_of (Skip j) = j"
| "job_of (Step_ok j) = j"
| "job_of (Step_fail j) = j"
| "job_of (Complete j) = j"

type_synonym run_state = "string \<Rightarrow> status"

definition init_state :: run_state where
  "init_state = (\<lambda>_. Pending)"

definition find_job :: "workflow \<Rightarrow> string \<Rightarrow> job option" where
  "find_job wfl j = find (\<lambda>x. job_id x = j) (jobs wfl)"

fun fire_job :: "job \<Rightarrow> action \<Rightarrow> run_state \<Rightarrow> run_state option" where
  "fire_job jb (Start j) st =
     (if st j = Pending \<and> list_all (\<lambda>n. st n = Succeeded) (needs jb)
      then Some (st(j := Running 0)) else None)"
| "fire_job jb (Skip j) st =
     (if st j = Pending \<and> list_ex (\<lambda>n. st n = Failed \<or> st n = Skipped) (needs jb)
      then Some (st(j := Skipped)) else None)"
| "fire_job jb (Step_ok j) st =
     (case st j of
        Running k \<Rightarrow> if k < length (steps jb) then Some (st(j := Running (Suc k))) else None
      | _ \<Rightarrow> None)"
| "fire_job jb (Step_fail j) st =
     (case st j of
        Running k \<Rightarrow> if k < length (steps jb) then Some (st(j := Failed)) else None
      | _ \<Rightarrow> None)"
| "fire_job jb (Complete j) st =
     (case st j of
        Running k \<Rightarrow> if k = length (steps jb) then Some (st(j := Succeeded)) else None
      | _ \<Rightarrow> None)"

definition fire :: "workflow \<Rightarrow> action \<Rightarrow> run_state \<Rightarrow> run_state option" where
  "fire wfl a st =
     (case find_job wfl (job_of a) of None \<Rightarrow> None | Some jb \<Rightarrow> fire_job jb a st)"

fun exec :: "workflow \<Rightarrow> action list \<Rightarrow> run_state \<Rightarrow> run_state option" where
  "exec wfl [] st = Some st"
| "exec wfl (a # as) st =
     (case fire wfl a st of None \<Rightarrow> None | Some st' \<Rightarrow> exec wfl as st')"

text \<open>What a run has done so far in one job.\<close>

definition history :: "string \<Rightarrow> action list \<Rightarrow> action list" where
  "history j acts = filter (\<lambda>a. job_of a = j) acts"

section \<open>The calibration notebook (docs/examples/calibration.ipynb)\<close>

subsection \<open>Exceptions and effects\<close>

text \<open>
  A Python call either returns a value or raises, and in both cases it may have changed
  the world before. A computation is therefore a function from the state to an outcome
  (\<open>Inl\<close> the exception, \<open>Inr\<close> the value) and the state it leaves. An exception
  skips the rest of the function body, as in Python.
\<close>

datatype py_error = KeyError string | Raised string

type_synonym ('a, 's) prog = "'s \<Rightarrow> (py_error + 'a) \<times> 's"

definition ret :: "'a \<Rightarrow> ('a, 's) prog" where
  "ret a s = (Inr a, s)"

definition raise :: "py_error \<Rightarrow> ('a, 's) prog" where
  "raise e s = (Inl e, s)"

definition and_then :: "('a, 's) prog \<Rightarrow> ('a \<Rightarrow> ('b, 's) prog) \<Rightarrow> ('b, 's) prog" where
  "and_then m f s = (case m s of (Inl e, s') \<Rightarrow> (Inl e, s') | (Inr a, s') \<Rightarrow> f a s')"

text \<open>\<open>d[k]\<close> on a dict raises \<open>KeyError\<close> when the key is missing.\<close>

definition getitem :: "(string \<rightharpoonup> 'v) \<Rightarrow> string \<Rightarrow> ('v, 's) prog" where
  "getitem d k = (case d k of None \<Rightarrow> raise (KeyError k) | Some v \<Rightarrow> ret v)"

subsection \<open>The reader class, as the notebook uses it\<close>

text \<open>
  The notebook imports the class \<open>TxtinoutReader\<close> and uses its constructor, its
  methods \<open>copy_swat\<close> and \<open>run_swat\<close> and its attribute \<open>root_folder\<close>. The class
  is not in the notebook, so the objective function is modelled over any implementation
  of these three operations: each is a computation on a file system of some type
  \<open>'fs\<close>, over Python values of some type \<open>'v\<close> that the objective function never
  looks into.
\<close>

record 'v reader =
  root_folder :: 'v

record ('fs, 'v) reader_api =
  api_init :: "'v \<Rightarrow> ('v reader, 'fs) prog"
  api_copy_swat :: "'v reader \<Rightarrow> 'v option \<Rightarrow> ('v, 'fs) prog"
  api_run_swat :: "'v reader \<Rightarrow> 'v \<Rightarrow> bool \<Rightarrow> ('v, 'fs) prog"

text \<open>
  The world of an evaluation: the file system, the calls made so far to the outside
  (oldest first), and the operating system's entropy. A generator made by
  \<open>np.random.default_rng()\<close> without a seed is seeded from fresh entropy; it is
  modelled by the sequence of raw 64-bit words it is going to produce, and the world
  holds one such sequence for every generator that will ever be made.
\<close>

datatype 'v call =
    Reader_init 'v
  | Copy_swat 'v "'v option" 'v
  | Run_swat 'v 'v bool 'v
  | Default_rng

record ('fs, 'v) world =
  files :: 'fs
  calls :: "'v call list"
  generators :: "nat \<Rightarrow> nat \<Rightarrow> 64 word"
  spawned :: nat

text \<open>
  A call into the reader class acts on the file system of the world; when it returns, it
  is written to the log of calls with its arguments and its result.
\<close>

definition external :: "('a, 'fs) prog \<Rightarrow> ('a \<Rightarrow> 'v call) \<Rightarrow> ('a, ('fs, 'v) world) prog" where
  "external m ev w =
     (case m (files w) of
        (Inl e, fs) \<Rightarrow> (Inl e, w\<lparr>files := fs\<rparr>)
      | (Inr a, fs) \<Rightarrow> (Inr a, w\<lparr>files := fs, calls := calls w @ [ev a]\<rparr>))"

definition TxtinoutReader :: "('fs, 'v) reader_api \<Rightarrow> 'v \<Rightarrow> ('v reader, ('fs, 'v) world) prog" where
  "TxtinoutReader api path = external (api_init api path) (\<lambda>_. Reader_init path)"

definition copy_swat ::
  "('fs, 'v) reader_api \<Rightarrow> 'v reader \<Rightarrow> 'v option \<Rightarrow> ('v, ('fs, 'v) world) prog" where
  "copy_swat api r target_dir =
     external (api_copy_swat api r target_dir) (Copy_swat (root_folder r) target_dir)"

definition run_swat ::
  "('fs, 'v) reader_api \<Rightarrow> 'v reader \<Rightarrow> 'v \<Rightarrow> bool \<Rightarrow> ('v, ('fs, 'v) world) prog" where
  "run_swat api r params show_output =
     external (api_run_swat api r params show_output)
       (Run_swat (root_folder r) params show_output)"

subsection \<open>The random generator\<close>

text \<open>
  \<open>Generator.random()\<close> takes the next raw 64-bit word of the generator, drops its
  11 low bits and scales the remaining 53 bits by \<open>2\<^sup>-\<^sup>5\<^sup>3\<close>. A 53-bit integer
  times a power of two is a double without rounding, so the real number below is the
  value of the double.
\<close>

record generator =
  raw :: "nat \<Rightarrow> 64 word"
  drawn :: nat

definition default_rng :: "(generator, ('fs, 'v) world) prog" where
  "default_rng w =
     (Inr \<lparr>raw = generators w (spawned w), drawn = 0\<rparr>,
      w\<lparr>spawned := Suc (spawned w), calls := calls w @ [Default_rng]\<rparr>)"

definition next_double :: "64 word \<Rightarrow> real" where
  "next_double u = real (unat (drop_bit 11 u)) / 2 ^ 53"

definition rng_random :: "generator \<Rightarrow> real \<times> generator" where
  "rng_random g = (next_double (raw g (drawn g)), g\<lparr>drawn := Suc (drawn g)\<rparr>)"

subsection \<open>The objective function\<close>

text \<open>
  \<open>function_to_minimize(dict_of_params)\<close>, statement by statement. The generator is
  local to the call and is dropped when the function returns.
\<close>

definition function_to_minimize ::
  "('fs, 'v) reader_api \<Rightarrow> (string \<rightharpoonup> 'v) \<Rightarrow> (real \<times> (string \<rightharpoonup> 'v), ('fs, 'v) world) prog" where
  "function_to_minimize api dict_of_params =
     and_then (getitem dict_of_params ''calibration_params'') (\<lambda>calibration_params.
     and_then (getitem dict_of_params ''path_to_txtinout'') (\<lambda>path_to_txtinout.
     and_then (TxtinoutReader api path_to_txtinout) (\<lambda>reader.
     and_then (copy_swat api reader None) (\<lambda>tmp_path.
     and_then (TxtinoutReader api tmp_path) (\<lambda>reader.
     and_then (run_swat api reader calibration_params False) (\<lambda>txt_in_out_result.
     and_then (TxtinoutReader api txt_in_out_result) (\<lambda>result_reader.
     and_then default_rng (\<lambda>rng.
     ret (fst (rng_random rng),
          [''test_calibration'' \<mapsto> root_folder result_reader])))))))))"

subsection \<open>The package around the notebook\<close>

text \<open>
  The Python values that travel through the notebook: paths, and calibration parameters
  in the form the objective function's docstring gives,
  \<open>{filename: (id_col, [(id, col, value)])}\<close>. The parameters the problem is built
  from have bounds in place of the value:
  \<open>{filename: (id_col, [(id, col, lower, upper)])}\<close>. Both dicts are kept as
  association lists, since the order of their entries is the order of the components of
  a parameter vector. A Python float is a double and is held as the real number that is
  its value: \<open>0.5\<close> is \<open>1 / 2\<close>, and \<open>0.4\<close> is the nearest double,
  \<open>3602879701896397 / 2\<^sup>5\<^sup>3\<close>. The integers 40 and 50 are themselves.
\<close>

type_synonym bounds = "(string \<times> string \<times> (string \<times> string \<times> real \<times> real) list) list"

type_synonym calibration = "(string \<times> string \<times> (string \<times> string \<times> real) list) list"

datatype pyval = Path string | Calibration calibration

text \<open>
  A file system maps the path of a directory to its content, and a directory maps the
  name of a file to its text.
\<close>

type_synonym directory = "string \<rightharpoonup> string"

type_synonym file_system = "string \<rightharpoonup> directory"

text \<open>
  Modelled from the spec: the class \<open>TxtinoutReader\<close> of the package, which the
  notebook imports and which is not among the sources. The spec says of it: ``An
  external reader component duplicates the workspace and executes the simulation with
  the supplied parameters.'' The constructor takes the path of an existing directory;
  \<open>copy_swat\<close> duplicates the reader's directory, into a new temporary directory when
  no target is given, and returns the path of the duplicate; \<open>run_swat\<close> executes the
  simulation in the reader's directory and returns the path of that directory. The
  simulation itself is a black box from the parameters and a directory to the directory
  it leaves and, when it fails, an exception. The name of the temporary directory is
  chosen by a function of the file system, and making it fails when the name is taken.
\<close>

definition reader_init :: "pyval \<Rightarrow> (pyval reader, file_system) prog" where
  "reader_init v fs =
     (case v of
        Path p \<Rightarrow> if fs p = None then raise (Raised ''FileNotFoundError'') fs
                  else ret \<lparr>root_folder = Path p\<rparr> fs
      | Calibration _ \<Rightarrow> raise (Raised ''TypeError'') fs)"

text \<open>
  Modelled from the spec: the method \<open>copy_swat\<close> of the absent class (``duplicates
  the workspace''). With no target the duplicate goes to a new temporary directory.
\<close>

definition reader_copy_swat ::
  "(file_system \<Rightarrow> string) \<Rightarrow> pyval reader \<Rightarrow> pyval option \<Rightarrow> (pyval, file_system) prog" where
  "reader_copy_swat mkdtemp r target_dir fs =
     (case root_folder r of
        Path p \<Rightarrow>
          (case fs p of
             None \<Rightarrow> raise (Raised ''FileNotFoundError'') fs
           | Some d \<Rightarrow>
               (case target_dir of
                  None \<Rightarrow>
                    (let t = mkdtemp fs
                     in if fs t = None then ret (Path t) (fs(t \<mapsto> d))
                        else raise (Raised ''FileExistsError'') fs)
                | Some (Path t) \<Rightarrow> ret (Path t) (fs(t \<mapsto> d))
                | Some (Calibration _) \<Rightarrow> raise (Raised ''TypeError'') fs))
      | Calibration _ \<Rightarrow> raise (Raised ''TypeError'') fs)"

text \<open>
  Modelled from the spec: the method \<open>run_swat\<close> of the absent class (``executes the
  simulation with the supplied parameters''), in the reader's own directory.
\<close>

definition reader_run_swat ::
  "(pyval \<Rightarrow> directory \<Rightarrow> py_error option \<times> directory) \<Rightarrow>
   pyval reader \<Rightarrow> pyval \<Rightarrow> bool \<Rightarrow> (pyval, file_system) prog" where
  "reader_run_swat simulate r params show_output fs =
     (case root_folder r of
        Path p \<Rightarrow>
          (case fs p of
             None \<Rightarrow> raise (Raised ''FileNotFoundError'') fs
           | Some d \<Rightarrow>
               (case simulate params d of
                  (None, d') \<Rightarrow> ret (Path p) (fs(p \<mapsto> d'))
                | (Some e, d') \<Rightarrow> raise e (fs(p \<mapsto> d'))))
      | Calibration _ \<Rightarrow> raise (Raised ''TypeError'') fs)"

text \<open>
  Modelled from the spec: the three operations of the absent class together, as one
  implementation of the interface the objective function is written against.
\<close>

definition spec_reader ::
  "(file_system \<Rightarrow> string) \<Rightarrow> (pyval \<Rightarrow> directory \<Rightarrow> py_error option \<times> directory) \<Rightarrow>
   (file_system, pyval) reader_api" where
  "spec_reader mkdtemp simulate =
     \<lparr>api_init = reader_init,
      api_copy_swat = reader_copy_swat mkdtemp,
      api_run_swat = reader_run_swat simulate\<rparr>"

text \<open>
  Modelled from the spec: the class \<open>SWATProblem\<close> of the package, which is not among
  the sources. A problem holds the arguments of its constructor. To evaluate a candidate
  vector it calls the objective function with one dict: the extra keyword arguments of
  the constructor, and under the name \<open>param_arg_name\<close> the calibration parameters,
  each with the component of the vector that belongs to it in place of its bounds. The
  problem can hand the candidates to several workers; the model evaluates them one after
  the other.
\<close>

record 'fs swat_problem =
  params :: bounds
  function_to_evaluate ::
    "(string \<rightharpoonup> pyval) \<Rightarrow> (real \<times> (string \<rightharpoonup> pyval), ('fs, pyval) world) prog"
  param_arg_name :: string
  n_workers :: nat
  parallelization :: string
  debug :: bool
  kwargs :: "string \<rightharpoonup> pyval"

text \<open>
  Modelled from the spec: how the absent class turns the parameters with bounds and a
  candidate vector into the calibration parameters of one evaluation. The spec gives the
  form with bounds, the docstring of the objective function the form with a value; the
  components of the vector are taken in the order of the tuples.
\<close>

fun with_values :: "bounds \<Rightarrow> real list \<Rightarrow> calibration" where
  "with_values [] x = []"
| "with_values ((file, id_col, rows) # rest) x =
     (file, id_col, map (\<lambda>((i, c, lb, ub), v). (i, c, v)) (zip rows x))
       # with_values rest (drop (length rows) x)"

text \<open>
  Modelled from the spec: one evaluation by the absent class (``invoking the scoring
  function as its objective'').
\<close>

definition evaluate ::
  "'fs swat_problem \<Rightarrow> real list \<Rightarrow> (real \<times> (string \<rightharpoonup> pyval), ('fs, pyval) world) prog" where
  "evaluate P x =
     function_to_evaluate P
       ((kwargs P)(param_arg_name P \<mapsto> Calibration (with_values (params P) x)))"

text \<open>
  Modelled from the spec: the function \<open>minimize_pymoo\<close> of the package, which is not
  among the sources. The spec says: ``An external optimizer repeatedly proposes parameter
  vectors, invoking the scoring function as its objective, until a termination criterion
  is met. The caller receives the best parameter vector, its associated output location,
  and its fitness value.'' The algorithm is a black box that proposes the next vector
  from the evaluations made so far; the termination criterion of the notebook is a
  number of evaluations; the best evaluation is the first one with the least fitness.
  What the caller receives as the second value is what the objective function returned
  beside the fitness (the notebook's recorded output prints a dict from the label to the
  path there).
\<close>

text \<open>
  Modelled from the spec: an evaluation the optimizer has made (the vector, what the
  objective function returned beside the fitness, and the fitness), the algorithm and the
  termination criterion, all of the absent package.
\<close>

type_synonym evaluation = "real list \<times> (string \<rightharpoonup> pyval) \<times> real"

type_synonym algorithm = "evaluation list \<Rightarrow> real list"

datatype termination_criterion = N_eval nat

text \<open>
  Modelled from the spec: the loop of the absent optimizer (``repeatedly proposes
  parameter vectors, invoking the scoring function as its objective, until a termination
  criterion is met''). An exception of an evaluation ends it.
\<close>

fun optimize ::
  "'fs swat_problem \<Rightarrow> algorithm \<Rightarrow> nat \<Rightarrow> evaluation list \<Rightarrow>
   (evaluation list, ('fs, pyval) world) prog" where
  "optimize P alg 0 h w = (Inr h, w)"
| "optimize P alg (Suc n) h w =
     (case evaluate P (alg h) w of
        (Inl e, w') \<Rightarrow> (Inl e, w')
      | (Inr (f, loc), w') \<Rightarrow> optimize P alg n (h @ [(alg h, loc, f)]) w')"

text \<open>
  Modelled from the spec: the choice of the absent optimizer (``the best parameter
  vector''): the first evaluation with the least fitness.
\<close>

fun best :: "evaluation list \<Rightarrow> evaluation option" where
  "best [] = None"
| "best (e # es) =
     (case best es of
        None \<Rightarrow> Some e
      | Some b \<Rightarrow> if snd (snd b) < snd (snd e) then Some b else Some e)"

text \<open>
  Modelled from the spec: the absent function \<open>minimize_pymoo\<close> (``The caller receives
  the best parameter vector, its associated output location, and its fitness value'').
  Without any evaluation there is no best one, and the call raises.
\<close>

fun minimize_pymoo ::
  "'fs swat_problem \<Rightarrow> algorithm \<Rightarrow> termination_criterion \<Rightarrow> (evaluation, ('fs, pyval) world) prog" where
  "minimize_pymoo P alg (N_eval n) =
     and_then (optimize P alg n [])
       (\<lambda>h. case best h of None \<Rightarrow> raise (Raised ''no evaluation'') | Some r \<Rightarrow> ret r)"

subsection \<open>The cells of the notebook\<close>

definition txtinout_folder :: string where
  "txtinout_folder = ''/mnt/c/Users/joans/OneDrive/Escriptori/icra/muga_windows''"

definition swat_problem :: "('fs, pyval) reader_api \<Rightarrow> 'fs swat_problem" where
  "swat_problem api =
     \<lparr>params = [(''plants.plt'', ''name'',
                  [(''bana'', ''bm_e'', 40, 50),
                   (''bana'', ''harv_idx'', 3602879701896397 / 9007199254740992, 1 / 2)])],
      function_to_evaluate = function_to_minimize api,
      param_arg_name = ''calibration_params'',
      n_workers = 4,
      parallelization = ''threads'',
      debug = False,
      kwargs = [''path_to_txtinout'' \<mapsto> Path txtinout_folder]\<rparr>"

definition n_simulations :: nat where
  "n_simulations = 2"

text \<open>
  The last code cell, \<open>x, path, error = minimize_pymoo(swat_problem, algorithm,
  termination, verbose=False)\<close>, with the algorithm object left open.
\<close>

definition run_the_optimization ::
  "('fs, pyval) reader_api \<Rightarrow> algorithm \<Rightarrow> (evaluation, ('fs, pyval) world) prog" where
  "run_the_optimization api algorithm =
     minimize_pymoo (swat_problem api) algorithm (N_eval n_simulations)"

section \<open>Auxiliary definitions for the proofs\<close>

text \<open>
  The state of \<open>build-and-publish\<close> determines what the run has done in that job so
  far: nothing while it is pending, its start and \<open>k\<close> steps while it is running, and
  its start, all seven steps and its completion once it has succeeded.
\<close>

definition build_inv :: "action list \<Rightarrow> run_state \<Rightarrow> bool" where
  "build_inv acts st =
     (case st ''build-and-publish'' of
        Pending \<Rightarrow> history ''build-and-publish'' acts = []
      | Running k \<Rightarrow> history ''build-and-publish'' acts =
            Start ''build-and-publish'' # replicate k (Step_ok ''build-and-publish'')
      | Succeeded \<Rightarrow> history ''build-and-publish'' acts =
            Start ''build-and-publish'' # replicate 7 (Step_ok ''build-and-publish'') @ [Complete ''build-and-publish'']
      | Failed \<Rightarrow> True
      | Skipped \<Rightarrow> True)"

text \<open>
  Two runs: one in which everything succeeds up to the first step of \<open>deploy-docs\<close>,
  and one in which the second step of \<open>build-and-publish\<close> fails.
\<close>

definition good_run :: "action list" where
  "good_run = Start ''build-and-publish'' # replicate 7 (Step_ok ''build-and-publish'')
                @ [Complete ''build-and-publish'', Start ''deploy-docs'', Step_ok ''deploy-docs'']"

definition bad_run :: "action list" where
  "bad_run = [Start ''build-and-publish'', Step_ok ''build-and-publish'',
              Step_fail ''build-and-publish'', Skip ''deploy-docs'']"

text \<open>The calls of a log that run the simulation.\<close>

fun is_run :: "'v call \<Rightarrow> bool" where
  "is_run (Run_swat _ _ _ _) = True"
| "is_run _ = False"





text \<open>
  A small world to evaluate the notebook in: the workspace holds one file, temporary
  directories are named \<open>/tmp/tmp0\<close> and \<open>/tmp/tmp1\<close>, the simulation writes one
  output file that names the first file it was asked to calibrate, the first generator
  starts with the word \<open>2\<^sup>6\<^sup>3\<close> and every later one with \<open>0\<close>, and the
  algorithm proposes one vector first and another one afterwards.
\<close>

definition demo_mkdtemp :: "file_system \<Rightarrow> string" where
  "demo_mkdtemp fs = (if fs ''/tmp/tmp0'' = None then ''/tmp/tmp0'' else ''/tmp/tmp1'')"

definition demo_simulate :: "pyval \<Rightarrow> directory \<Rightarrow> py_error option \<times> directory" where
  "demo_simulate cp d =
     (None,
      d(''basin_wb_day.txt'' \<mapsto>
          (case cp of Calibration ((file, _) # _) \<Rightarrow> file | _ \<Rightarrow> [])))"

definition demo_reader :: "(file_system, pyval) reader_api" where
  "demo_reader = spec_reader demo_mkdtemp demo_simulate"

definition demo_world :: "(file_system, pyval) world" where
  "demo_world =
     \<lparr>files = [txtinout_folder \<mapsto> [''plants.plt'' \<mapsto> ''bana'']],
      calls = [],
      generators = (\<lambda>i j. if i = 0 then 9223372036854775808 else 0),
      spawned = 0\<rparr>"

definition demo_params :: pyval where
  "demo_params = Calibration [(''plants.plt'', ''name'', [(''bana'', ''bm_e'', 45)])]"

definition demo_dict :: "string \<rightharpoonup> pyval" where
  "demo_dict =
     [''calibration_params'' \<mapsto> demo_params, ''path_to_txtinout'' \<mapsto> Path txtinout_folder]"

definition other_params :: pyval where
  "other_params = Calibration [(''hydrology.hyd'', ''name'', [(''hru1'', ''esco'', 1 / 2)])]"

definition other_dict :: "string \<rightharpoonup> pyval" where
  "other_dict =
     [''calibration_params'' \<mapsto> other_params, ''path_to_txtinout'' \<mapsto> Path txtinout_folder]"

definition demo_algorithm :: algorithm where
  "demo_algorithm h = (if h = [] then [42, 7 / 16] else [48, 15 / 32])"

text \<open>The world after the evaluation of each of the two dicts in the small world.\<close>

definition demo_after :: "(file_system, pyval) world" where
  "demo_after =
     \<lparr>files = [txtinout_folder \<mapsto> [''plants.plt'' \<mapsto> ''bana''],
                ''/tmp/tmp0'' \<mapsto> [''plants.plt'' \<mapsto> ''bana'',
                                ''basin_wb_day.txt'' \<mapsto> ''plants.plt'']],
      calls = [Reader_init (Path txtinout_folder),
               Copy_swat (Path txtinout_folder) None (Path ''/tmp/tmp0''),
               Reader_init (Path ''/tmp/tmp0''),
               Run_swat (Path ''/tmp/tmp0'') demo_params False (Path ''/tmp/tmp0''),
               Reader_init (Path ''/tmp/tmp0''), Default_rng],
      generators = (\<lambda>i j. if i = 0 then 9223372036854775808 else 0),
      spawned = 1\<rparr>"

definition other_after :: "(file_system, pyval) world" where
  "other_after =
     \<lparr>files = [txtinout_folder \<mapsto> [''plants.plt'' \<mapsto> ''bana''],
                ''/tmp/tmp0'' \<mapsto> [''plants.plt'' \<mapsto> ''bana'',
                                ''basin_wb_day.txt'' \<mapsto> ''hydrology.hyd'']],
      calls = [Reader_init (Path txtinout_folder),
               Copy_swat (Path txtinout_folder) None (Path ''/tmp/tmp0''),
               Reader_init (Path ''/tmp/tmp0''),
               Run_swat (Path ''/tmp/tmp0'') other_params False (Path ''/tmp/tmp0''),
               Reader_init (Path ''/tmp/tmp0''), Default_rng],
      generators = (\<lambda>i j. if i = 0 then 9223372036854775808 else 0),
      spawned = 1\<rparr>"

section \<open>Properties of the workflow\<close>

subsection \<open>The trigger\<close>

lemma matches_Star_end: "matches [Star] s = (CHR ''/'' \<notin> set s)"
  by (induction s) auto

lemma filter_v_star:
  "filter_match ''v*'' t = (\<exists>rest. t = CHR ''v'' # rest \<and> CHR ''/'' \<notin> set rest)"
  by (cases t) (auto simp: filter_match_def matches_Star_end)

text \<open>
  Claim C6. The publish workflow runs on an event if and only if the event is the push
  of a tag whose name matches the pattern \<open>v*\<close>; no push of a branch, no push of
  another tag and no event of another kind runs it.
\<close>

theorem publish_triggered_iff:
  "triggered publish_workflow ev \<longleftrightarrow> (\<exists>t. ev = Push (Tag t) \<and> filter_match ''v*'' t)"
  by (auto simp: triggered_def publish_workflow_def ref_passes_def
           split: event.splits git_ref.splits)

theorem publish_triggered_iff_witness:
  "triggered publish_workflow (Push (Tag ''v1.2.3'')) \<and>
   \<not> triggered publish_workflow (Push (Tag ''1.2.3'')) \<and>
   \<not> triggered publish_workflow (Push (Branch ''v1.2.3'')) \<and>
   \<not> triggered publish_workflow (Other_event ''pull_request'')"
  using publish_triggered_iff [of "Push (Tag ''v1.2.3'')"]
        publish_triggered_iff [of "Push (Tag ''1.2.3'')"]
        publish_triggered_iff [of "Push (Branch ''v1.2.3'')"]
        publish_triggered_iff [of "Other_event ''pull_request''"]
  by (simp add: filter_match_def)

subsection \<open>The version taken from the tag\<close>

lemma lines_acc_one_line:
  "newline \<notin> set l \<Longrightarrow> lines_acc cur (l @ [newline]) = [cur @ l]"
  by (induction l arbitrary: cur) auto

lemma parse_VERSION: "parse_env_line (''VERSION='' @ X) = Inr (''VERSION'', X)"
  by (simp add: parse_env_line_def)

text \<open>
  Claim C10. When the ref that started the run is \<open>refs/tags/vX\<close>, the step
  \<open>get_version\<close> succeeds and sets \<open>VERSION\<close> to \<open>X\<close>, the name of the tag without
  its leading \<open>v\<close>, and changes no other variable. (A ref name holds no control
  character, so \<open>X\<close> has no line break.)
\<close>

theorem get_version_sets_VERSION:
  assumes ref: "env ''GITHUB_REF'' = Some (tag_ref (CHR ''v'' # X))"
    and nl: "newline \<notin> set X"
  shows "run_get_version env = Inr (env(''VERSION'' \<mapsto> X))"
proof -
  have line: "newline \<notin> set (''VERSION='' @ X)"
    using nl by (simp add: newline_def)
  have "fst (get_version env []) = (''VERSION='' @ X) @ [newline]"
    using ref by (simp add: get_version_def expand_def remove_prefix_def tag_ref_def)
  then have "lines_acc [] (fst (get_version env [])) = [''VERSION='' @ X]"
    using lines_acc_one_line [OF line, of "[]"] by simp
  then show ?thesis
    using parse_VERSION [of X] by (simp add: run_get_version_def)
qed

theorem get_version_sets_VERSION_witness:
  "run_get_version [''GITHUB_REF'' \<mapsto> ''refs/tags/v1.2.3''] =
     Inr [''GITHUB_REF'' \<mapsto> ''refs/tags/v1.2.3'', ''VERSION'' \<mapsto> ''1.2.3'']"
  using get_version_sets_VERSION [of "[''GITHUB_REF'' \<mapsto> ''refs/tags/v1.2.3'']" "''1.2.3''"]
  by (simp add: tag_ref_def newline_def)

subsection \<open>The order of the jobs\<close>

lemma find_job_publish:
  "find_job publish_workflow j =
     (if j = ''build-and-publish'' then Some build_and_publish
      else if j = ''deploy-docs'' then Some deploy_docs else None)"
  by (simp add: find_job_def publish_workflow_def build_and_publish_def deploy_docs_def)

lemma exec_append:
  "exec wfl (as @ bs) st = (case exec wfl as st of None \<Rightarrow> None | Some st' \<Rightarrow> exec wfl bs st')"
  by (induction as arbitrary: st) (auto split: option.splits)

lemma fire_build_inv:
  assumes "build_inv acts st" "fire publish_workflow a st = Some st'"
  shows "build_inv (acts @ [a]) st'"
proof (cases "job_of a = ''build-and-publish''")
  case True
  then show ?thesis using assms
    by (cases a) (auto simp: fire_def find_job_publish build_inv_def history_def build_and_publish_def replicate_append_same
        split: status.splits if_splits)
next
  case False
  then have "st' ''build-and-publish'' = st ''build-and-publish''"
    using assms(2)
    by (cases a) (auto simp: fire_def find_job_publish split: status.splits if_splits option.splits)
  then show ?thesis using assms(1) False by (simp add: build_inv_def history_def split: status.splits)
qed

lemma exec_build_inv:
  "exec publish_workflow acts init_state = Some st \<Longrightarrow> build_inv acts st"
proof (induction acts arbitrary: st rule: rev_induct)
  case Nil
  then show ?case by (auto simp: build_inv_def init_state_def history_def)
next
  case (snoc a acts)
  then show ?case
    by (auto simp: exec_append split: option.splits dest: fire_build_inv)
qed

lemma succeeded_stable:
  "fire wfl a st = Some st' \<Longrightarrow> st j = Succeeded \<Longrightarrow> st' j = Succeeded \<and> a \<noteq> Step_fail j"
  by (cases a) (auto simp: fire_def split: option.splits status.splits if_splits)

lemma succeeded_stable_exec:
  "exec wfl as st = Some st' \<Longrightarrow> st j = Succeeded \<Longrightarrow> st' j = Succeeded \<and> Step_fail j \<notin> set as"
proof (induction as arbitrary: st)
  case Nil then show ?case by simp
next
  case (Cons a as)
  then show ?case 
    by (auto split: option.splits dest: succeeded_stable)
qed

lemma start_deploy_needs:
  "fire publish_workflow (Start ''deploy-docs'') st = Some st' \<Longrightarrow> st ''build-and-publish'' = Succeeded"
  by (auto simp: fire_def find_job_publish deploy_docs_def split: if_splits)

lemma not_started:
  "exec wfl acts init_state = Some st \<Longrightarrow> Start j \<notin> set acts \<Longrightarrow>
     (st j = Pending \<or> st j = Skipped) \<and> (\<forall>a\<in>set acts. job_of a = j \<longrightarrow> a = Skip j)"
proof (induction acts arbitrary: st rule: rev_induct)
  case Nil
  then show ?case by (auto simp: init_state_def)
next
  case (snoc a acts)
  from snoc.prems obtain st0 where st0: "exec wfl acts init_state = Some st0"
    and a: "fire wfl a st0 = Some st"
    by (auto simp: exec_append split: option.splits)
  from snoc.IH [OF st0] snoc.prems(2)
  have ih: "st0 j = Pending \<or> st0 j = Skipped" "\<forall>a\<in>set acts. job_of a = j \<longrightarrow> a = Skip j"
    by auto
  from a ih(1) snoc.prems(2) have "(st j = Pending \<or> st j = Skipped) \<and> (job_of a = j \<longrightarrow> a = Skip j)"
    by (cases a) (auto simp: fire_def split: option.splits status.splits if_splits)
  with ih(2) show ?case by auto
qed

text \<open>
  Claim C7. In every run of the publish workflow, whatever the order in which the
  platform interleaves the jobs: at the moment the job \<open>deploy-docs\<close> starts, the job
  \<open>build-and-publish\<close> has started, has run its seven steps (the package build, the
  upload to the package index and the creation of the release among them) with success
  and has completed; and in a run in which a step of \<open>build-and-publish\<close> fails, the
  job \<open>deploy-docs\<close> never starts and none of its steps runs: it can only be skipped.
\<close>

theorem deploy_docs_after_publish:
  assumes run: "exec publish_workflow acts init_state = Some st"
  shows "(\<forall>pre post. acts = pre @ Start ''deploy-docs'' # post \<longrightarrow>
            history ''build-and-publish'' pre =
              Start ''build-and-publish'' # replicate 7 (Step_ok ''build-and-publish'')
                @ [Complete ''build-and-publish''])
       \<and> (Step_fail ''build-and-publish'' \<in> set acts \<longrightarrow>
            (st ''deploy-docs'' = Pending \<or> st ''deploy-docs'' = Skipped) \<and>
            (\<forall>a\<in>set acts. job_of a = ''deploy-docs'' \<longrightarrow> a = Skip ''deploy-docs''))"
proof -
  have before: "history ''build-and-publish'' pre =
              Start ''build-and-publish'' # replicate 7 (Step_ok ''build-and-publish'')
                @ [Complete ''build-and-publish'']
            \<and> Step_fail ''build-and-publish'' \<notin> set acts"
    if split: "acts = pre @ Start ''deploy-docs'' # post" for pre post
  proof -
    from run split obtain st1 st2 where st1: "exec publish_workflow pre init_state = Some st1"
      and st2: "fire publish_workflow (Start ''deploy-docs'') st1 = Some st2"
      and st3: "exec publish_workflow post st2 = Some st"
      by (auto simp: exec_append split: option.splits)
    from st2 have ok: "st1 ''build-and-publish'' = Succeeded"
      by (rule start_deploy_needs)
    with exec_build_inv [OF st1]
    have h: "history ''build-and-publish'' pre =
              Start ''build-and-publish'' # replicate 7 (Step_ok ''build-and-publish'')
                @ [Complete ''build-and-publish'']"
      by (simp add: build_inv_def)
    have "Step_fail ''build-and-publish'' \<notin> set (history ''build-and-publish'' pre)"
      unfolding h by auto
    then have no_pre: "Step_fail ''build-and-publish'' \<notin> set pre"
      by (simp add: history_def)
    from succeeded_stable [OF st2 ok] have "st2 ''build-and-publish'' = Succeeded" by simp
    from succeeded_stable_exec [OF st3 this] have "Step_fail ''build-and-publish'' \<notin> set post"
      by simp
    with no_pre split h show ?thesis by simp
  qed
  have "Start ''deploy-docs'' \<notin> set acts" if "Step_fail ''build-and-publish'' \<in> set acts"
  proof
    assume "Start ''deploy-docs'' \<in> set acts"
    then obtain pre post where "acts = pre @ Start ''deploy-docs'' # post"
      by (auto dest: split_list)
    from before [OF this] that show False by simp
  qed
  with not_started [OF run] before show ?thesis by blast
qed

theorem deploy_docs_after_publish_witness:
  "exec publish_workflow good_run init_state \<noteq> None \<and>
   history ''build-and-publish'' (take 9 good_run) =
     Start ''build-and-publish'' # replicate 7 (Step_ok ''build-and-publish'')
       @ [Complete ''build-and-publish''] \<and>
   exec publish_workflow bad_run init_state \<noteq> None \<and>
   Step_fail ''build-and-publish'' \<in> set bad_run \<and>
   Start ''deploy-docs'' \<notin> set bad_run \<and>
   Step_ok ''deploy-docs'' \<notin> set bad_run"
proof -
  have good: "exec publish_workflow good_run init_state \<noteq> None"
    by (simp add: good_run_def fire_def find_job_publish init_state_def
        build_and_publish_def deploy_docs_def eval_nat_numeral)
  then obtain st where st: "exec publish_workflow good_run init_state = Some st"
    by auto
  have split: "good_run = take 9 good_run @ Start ''deploy-docs'' # [Step_ok ''deploy-docs'']"
    by (simp add: good_run_def eval_nat_numeral)
  have bad: "exec publish_workflow bad_run init_state \<noteq> None"
    by (simp add: bad_run_def fire_def find_job_publish init_state_def
        build_and_publish_def deploy_docs_def eval_nat_numeral)
  then obtain st' where st': "exec publish_workflow bad_run init_state = Some st'"
    by auto
  have failed: "Step_fail ''build-and-publish'' \<in> set bad_run"
    by (simp add: bad_run_def)
  from deploy_docs_after_publish [OF st] split
  have "history ''build-and-publish'' (take 9 good_run) =
     Start ''build-and-publish'' # replicate 7 (Step_ok ''build-and-publish'')
       @ [Complete ''build-and-publish'']"
    by blast
  moreover from deploy_docs_after_publish [OF st'] failed
  have skipped: "\<forall>a\<in>set bad_run. job_of a = ''deploy-docs'' \<longrightarrow> a = Skip ''deploy-docs''"
    by blast
  have "Start ''deploy-docs'' \<notin> set bad_run" and "Step_ok ''deploy-docs'' \<notin> set bad_run"
    using skipped by fastforce+
  ultimately show ?thesis using good bad failed by simp
qed

section \<open>Properties of the notebook\<close>

subsection \<open>Computations\<close>

lemma and_then_Inr:
  "and_then m f s = (Inr b, s'') \<longleftrightarrow> (\<exists>a s'. m s = (Inr a, s') \<and> f a s' = (Inr b, s''))"
  by (auto simp: and_then_def split: prod.splits sum.splits)

lemma and_thenE:
  assumes "and_then m f s = (outcome, s'')"
  obtains (raised) e where "m s = (Inl e, s'')" "outcome = Inl e"
  | (returned) a s' where "m s = (Inr a, s')" "f a s' = (outcome, s'')"
  using assms by (auto simp: and_then_def split: prod.splits sum.splits)

lemma getitem_Inr: "getitem d k s = (Inr v, s') \<longleftrightarrow> d k = Some v \<and> s' = s"
  by (auto simp: getitem_def raise_def ret_def split: option.splits)

lemma getitem_outcome:
  "getitem d k s = (outcome, s') \<longleftrightarrow>
     s' = s \<and> outcome = (case d k of None \<Rightarrow> Inl (KeyError k) | Some v \<Rightarrow> Inr v)"
  by (auto simp: getitem_def ret_def raise_def split: option.splits)

lemma external_Inr:
  "external m ev w = (Inr a, w') \<longleftrightarrow>
     (\<exists>fs. m (files w) = (Inr a, fs) \<and> w' = w\<lparr>files := fs, calls := calls w @ [ev a]\<rparr>)"
  by (auto simp: external_def split: prod.splits sum.splits)

lemma external_outcome:
  "external m ev w = (outcome, w') \<Longrightarrow> \<exists>fs. m (files w) = (outcome, fs) \<and> files w' = fs"
  by (auto simp: external_def split: prod.splits sum.splits)

subsection \<open>The random generator\<close>

lemma drop_bit_11_less: "unat (drop_bit 11 (u :: 64 word)) < 2 ^ 53"
proof -
  have "unat u < 2 ^ 64"
    using unsigned_less [of u, where 'a = nat] by simp
  then have "unat u div 2 ^ 11 < 2 ^ 53"
    by (simp add: less_mult_imp_div_less)
  moreover have "unat (drop_bit 11 u) = drop_bit 11 (unat u)"
    by (rule unat_drop_bit_eq)
  moreover have "drop_bit 11 (unat u) = unat u div 2 ^ 11"
    by (rule drop_bit_eq_div)
  ultimately show ?thesis
    by (simp only:)
qed

lemma next_double_range: "0 \<le> next_double u \<and> next_double u < 1"
proof -
  define k where "k = unat (drop_bit 11 u)"
  have "k < 2 ^ 53"
    unfolding k_def by (rule drop_bit_11_less)
  then have "real k < 2 ^ 53"
    by (metis of_nat_less_iff of_nat_numeral of_nat_power)
  moreover have "next_double u = real k / 2 ^ 53"
    unfolding next_double_def k_def ..
  ultimately show ?thesis
    by simp
qed

lemma next_double_0: "next_double 0 = 0"
  by (simp add: next_double_def)

lemma next_double_half: "next_double 9223372036854775808 = 1 / 2"
proof -
  have "unat (drop_bit 11 (9223372036854775808 :: 64 word)) = 4503599627370496"
    by (simp add: unat_drop_bit_eq drop_bit_eq_div)
  then show ?thesis
    by (simp only: next_double_def) simp
qed

subsection \<open>What a returning evaluation has done\<close>

text \<open>
  The objective function returns exactly when both keys are in the dict and the five
  calls into the reader class return, one after the other on the file system the call
  before has left; the result and the world it leaves are then determined.
\<close>

lemma function_to_minimize_Inr:
  "function_to_minimize api d w = (Inr res, w') \<longleftrightarrow>
     (\<exists>cp p r1 fs1 tmp fs2 r2 fs3 out fs4 r3 fs5.
        d ''calibration_params'' = Some cp \<and>
        d ''path_to_txtinout'' = Some p \<and>
        api_init api p (files w) = (Inr r1, fs1) \<and>
        api_copy_swat api r1 None fs1 = (Inr tmp, fs2) \<and>
        api_init api tmp fs2 = (Inr r2, fs3) \<and>
        api_run_swat api r2 cp False fs3 = (Inr out, fs4) \<and>
        api_init api out fs4 = (Inr r3, fs5) \<and>
        res = (next_double (generators w (spawned w) 0),
               [''test_calibration'' \<mapsto> root_folder r3]) \<and>
        w' = w\<lparr>files := fs5,
               calls := calls w @ [Reader_init p, Copy_swat (root_folder r1) None tmp,
                          Reader_init tmp, Run_swat (root_folder r2) cp False out,
                          Reader_init out, Default_rng],
               spawned := Suc (spawned w)\<rparr>)"
  unfolding function_to_minimize_def and_then_Inr getitem_Inr TxtinoutReader_def copy_swat_def
    run_swat_def external_Inr
  by (auto simp: default_rng_def ret_def rng_random_def)

lemma function_to_minimize_InrE:
  assumes "function_to_minimize api d w = (Inr res, w')"
  obtains cp p r1 fs1 tmp fs2 r2 fs3 out fs4 r3 fs5 where
    "d ''calibration_params'' = Some cp"
    "d ''path_to_txtinout'' = Some p"
    "api_init api p (files w) = (Inr r1, fs1)"
    "api_copy_swat api r1 None fs1 = (Inr tmp, fs2)"
    "api_init api tmp fs2 = (Inr r2, fs3)"
    "api_run_swat api r2 cp False fs3 = (Inr out, fs4)"
    "api_init api out fs4 = (Inr r3, fs5)"
    "res = (next_double (generators w (spawned w) 0),
            [''test_calibration'' \<mapsto> root_folder r3])"
    "w' = w\<lparr>files := fs5,
               calls := calls w @ [Reader_init p, Copy_swat (root_folder r1) None tmp,
                          Reader_init tmp, Run_swat (root_folder r2) cp False out,
                          Reader_init out, Default_rng],
               spawned := Suc (spawned w)\<rparr>"
  using assms [unfolded function_to_minimize_Inr] by (elim exE conjE) (rule that)

subsection \<open>Two evaluations in the small world\<close>

lemmas demo_defs =
  demo_world_def demo_reader_def spec_reader_def demo_mkdtemp_def demo_simulate_def
  txtinout_folder_def reader_init_def reader_copy_swat_def reader_run_swat_def
  ret_def raise_def Let_def

lemmas objective_defs =
  function_to_minimize_def and_then_def getitem_def TxtinoutReader_def copy_swat_def
  run_swat_def external_def default_rng_def rng_random_def next_double_half next_double_0

lemma demo_eval:
  "function_to_minimize demo_reader demo_dict demo_world =
     (Inr (1 / 2, [''test_calibration'' \<mapsto> Path ''/tmp/tmp0'']), demo_after)"
  by (simp add: objective_defs demo_defs demo_dict_def demo_params_def demo_after_def)

lemma other_eval:
  "function_to_minimize demo_reader other_dict demo_world =
     (Inr (1 / 2, [''test_calibration'' \<mapsto> Path ''/tmp/tmp0'']), other_after)"
  by (simp add: objective_defs demo_defs other_dict_def other_params_def other_after_def)

subsection \<open>The steps of the objective function\<close>

text \<open>
  Claim C1. Whenever the dict holds the two keys and the calls into the reader class
  return, \<open>function_to_minimize\<close> returns, and the calls it has made are, in this
  order and with nothing in between: a reader on the workspace at \<open>path_to_txtinout\<close>,
  \<open>copy_swat\<close> of that reader with no target (a temporary directory), a reader on
  the path of the copy, \<open>run_swat\<close> of that reader with the calibration parameters
  of the dict, a reader on the path the run returned, and the making of a new random
  generator. The error metric it returns is the first number of that generator: it is
  fixed by the entropy of the world alone, and no call after the run reads what the
  simulation wrote.
\<close>

theorem function_to_minimize_steps:
  assumes "dict_of_params ''calibration_params'' = Some calibration_params"
    and "dict_of_params ''path_to_txtinout'' = Some path_to_txtinout"
    and "api_init api path_to_txtinout (files w) = (Inr r1, fs1)"
    and "api_copy_swat api r1 None fs1 = (Inr tmp_path, fs2)"
    and "api_init api tmp_path fs2 = (Inr r2, fs3)"
    and "api_run_swat api r2 calibration_params False fs3 = (Inr txt_in_out_result, fs4)"
    and "api_init api txt_in_out_result fs4 = (Inr r3, fs5)"
  shows "\<exists>w'. function_to_minimize api dict_of_params w =
           (Inr (next_double (generators w (spawned w) 0),
                 [''test_calibration'' \<mapsto> root_folder r3]), w') \<and>
         calls w' = calls w @
           [Reader_init path_to_txtinout,
            Copy_swat (root_folder r1) None tmp_path,
            Reader_init tmp_path,
            Run_swat (root_folder r2) calibration_params False txt_in_out_result,
            Reader_init txt_in_out_result,
            Default_rng] \<and>
         files w' = fs5"
  unfolding function_to_minimize_Inr using assms by auto

theorem function_to_minimize_steps_witness:
  "\<exists>w'. function_to_minimize demo_reader demo_dict demo_world =
           (Inr (1 / 2, [''test_calibration'' \<mapsto> Path ''/tmp/tmp0'']), w') \<and>
         calls w' =
           [Reader_init (Path txtinout_folder),
            Copy_swat (Path txtinout_folder) None (Path ''/tmp/tmp0''),
            Reader_init (Path ''/tmp/tmp0''),
            Run_swat (Path ''/tmp/tmp0'') demo_params False (Path ''/tmp/tmp0''),
            Reader_init (Path ''/tmp/tmp0''),
            Default_rng] \<and>
         files w' = files demo_after"
proof -
  let ?fs0 = "[txtinout_folder \<mapsto> [''plants.plt'' \<mapsto> ''bana'']]"
  let ?fs1 = "?fs0(''/tmp/tmp0'' \<mapsto> [''plants.plt'' \<mapsto> ''bana''])"
  let ?r0 = "\<lparr>root_folder = Path txtinout_folder\<rparr>"
  let ?r1 = "\<lparr>root_folder = Path ''/tmp/tmp0''\<rparr>"
  have "demo_dict ''calibration_params'' = Some demo_params"
    and "demo_dict ''path_to_txtinout'' = Some (Path txtinout_folder)"
    by (simp_all add: demo_dict_def)
  moreover have "api_init demo_reader (Path txtinout_folder) (files demo_world) = (Inr ?r0, ?fs0)"
    by (simp add: demo_defs)
  moreover have "api_copy_swat demo_reader ?r0 None ?fs0 = (Inr (Path ''/tmp/tmp0''), ?fs1)"
    by (simp add: demo_defs)
  moreover have "api_init demo_reader (Path ''/tmp/tmp0'') ?fs1 = (Inr ?r1, ?fs1)"
    by (simp add: demo_defs)
  moreover have "api_run_swat demo_reader ?r1 demo_params False ?fs1 =
      (Inr (Path ''/tmp/tmp0''), files demo_after)"
    by (simp add: demo_defs demo_params_def demo_after_def)
  moreover have "api_init demo_reader (Path ''/tmp/tmp0'') (files demo_after) =
      (Inr ?r1, files demo_after)"
    by (simp add: demo_defs demo_after_def)
  ultimately have "\<exists>w'. function_to_minimize demo_reader demo_dict demo_world =
           (Inr (next_double (generators demo_world (spawned demo_world) 0),
                 [''test_calibration'' \<mapsto> root_folder ?r1]), w') \<and>
         calls w' = calls demo_world @
           [Reader_init (Path txtinout_folder),
            Copy_swat (root_folder ?r0) None (Path ''/tmp/tmp0''),
            Reader_init (Path ''/tmp/tmp0''),
            Run_swat (root_folder ?r1) demo_params False (Path ''/tmp/tmp0''),
            Reader_init (Path ''/tmp/tmp0''),
            Default_rng] \<and>
         files w' = files demo_after"
    by (rule function_to_minimize_steps)
  then show ?thesis
    by (simp add: demo_world_def next_double_half)
qed

subsection \<open>The result of an evaluation\<close>

text \<open>
  Claim C4. Every result that \<open>function_to_minimize\<close> returns is a pair: a real
  number, the fitness, and a dict with the single label \<open>test_calibration\<close>, whose
  value is an output location: the root folder of the reader made on the path that
  \<open>run_swat\<close> returned in this evaluation.
\<close>

theorem evaluation_result_shape:
  assumes "function_to_minimize api d w = (Inr result, w')"
  shows "\<exists>fitness location.
           result = (fitness, [''test_calibration'' \<mapsto> location]) \<and>
           dom (snd result) = {''test_calibration''} \<and>
           (\<exists>rf cp out r fs fs'.
              Run_swat rf cp False out \<in> set (drop (length (calls w)) (calls w')) \<and>
              api_init api out fs = (Inr r, fs') \<and> location = root_folder r)"
  using assms
proof (rule function_to_minimize_InrE)
  fix cp p r1 fs1 tmp fs2 r2 fs3 out fs4 r3 fs5
  assume init: "api_init api out fs4 = (Inr r3, fs5)"
    and res: "result = (next_double (generators w (spawned w) 0),
                        [''test_calibration'' \<mapsto> root_folder r3])"
    and w': "w' = w\<lparr>files := fs5,
               calls := calls w @ [Reader_init p, Copy_swat (root_folder r1) None tmp,
                          Reader_init tmp, Run_swat (root_folder r2) cp False out,
                          Reader_init out, Default_rng],
               spawned := Suc (spawned w)\<rparr>"
  from w' have "Run_swat (root_folder r2) cp False out \<in> set (drop (length (calls w)) (calls w'))"
    by simp
  with init have run: "\<exists>rf cp out r fs fs'.
              Run_swat rf cp False out \<in> set (drop (length (calls w)) (calls w')) \<and>
              api_init api out fs = (Inr r, fs') \<and> root_folder r3 = root_folder r"
    by blast
  from res have "dom (snd result) = {''test_calibration''}"
    by simp
  with res run
  have "result = (next_double (generators w (spawned w) 0),
                  [''test_calibration'' \<mapsto> root_folder r3]) \<and>
        dom (snd result) = {''test_calibration''} \<and>
        (\<exists>rf cp out r fs fs'.
              Run_swat rf cp False out \<in> set (drop (length (calls w)) (calls w')) \<and>
              api_init api out fs = (Inr r, fs') \<and> root_folder r3 = root_folder r)"
    by (intro conjI)
  then show ?thesis
    by (intro exI)
qed

theorem evaluation_result_shape_witness:
  "\<exists>fitness location.
     (1 / 2 :: real, [''test_calibration'' \<mapsto> Path ''/tmp/tmp0'']) =
       (fitness, [''test_calibration'' \<mapsto> location]) \<and>
     dom (snd (1 / 2 :: real, [''test_calibration'' \<mapsto> Path ''/tmp/tmp0''])) =
       {''test_calibration''} \<and>
     (\<exists>rf cp out r fs fs'.
        Run_swat rf cp False out
          \<in> set (drop (length (calls demo_world)) (calls demo_after)) \<and>
        api_init demo_reader out fs = (Inr r, fs') \<and> location = root_folder r)"
  using demo_eval by (rule evaluation_result_shape)

subsection \<open>The calibration parameters\<close>









subsection \<open>The fitness value\<close>

text \<open>
  Claim C9. The fitness that \<open>function_to_minimize\<close> returns lies in the half-open
  interval from 0 to 1. It is the first number of a generator made in this call from
  entropy that no generator has used before, so it is the same for every reader
  implementation, every dict of parameters, every file system and every log of calls:
  two evaluations in worlds with the same entropy return the same fitness.
\<close>

theorem fitness_random_unit_interval:
  assumes "function_to_minimize api d w = (Inr (fitness, loc), w1)"
  shows "0 \<le> fitness \<and> fitness < 1 \<and>
         fitness = fst (rng_random \<lparr>raw = generators w (spawned w), drawn = 0\<rparr>) \<and>
         spawned w1 = Suc (spawned w) \<and>
         (\<forall>api' d' w' fitness' loc' w1'.
            function_to_minimize api' d' w' = (Inr (fitness', loc'), w1') \<and>
            generators w' = generators w \<and> spawned w' = spawned w \<longrightarrow> fitness' = fitness)"
    (is "_ \<and> _ \<and> _ \<and> _ \<and> ?indep")
proof -
  from assms have f: "fitness = next_double (generators w (spawned w) 0)"
    and s: "spawned w1 = Suc (spawned w)"
    unfolding function_to_minimize_Inr by auto
  have ?indep
    using f unfolding function_to_minimize_Inr by auto
  moreover have "fitness = fst (rng_random \<lparr>raw = generators w (spawned w), drawn = 0\<rparr>)"
    using f by (simp add: rng_random_def)
  moreover have "0 \<le> fitness \<and> fitness < 1"
    using f next_double_range [of "generators w (spawned w) 0"] by simp
  ultimately show ?thesis
    using s by simp
qed

theorem fitness_random_unit_interval_witness:
  "(0::real) \<le> 1 / 2 \<and> (1 / 2 :: real) < 1 \<and>
   1 / 2 = fst (rng_random \<lparr>raw = generators demo_world (spawned demo_world), drawn = 0\<rparr>) \<and>
   spawned demo_after = Suc (spawned demo_world) \<and>
   fst (function_to_minimize demo_reader other_dict demo_world) =
     Inr (1 / 2, [''test_calibration'' \<mapsto> Path ''/tmp/tmp0'']) \<and>
   files other_after \<noteq> files demo_after"
proof -
  note a = fitness_random_unit_interval [OF demo_eval]
  have "files other_after ''/tmp/tmp0'' \<noteq> files demo_after ''/tmp/tmp0''"
    by (simp add: other_after_def demo_after_def fun_eq_iff)
  then have "files other_after \<noteq> files demo_after"
    by auto
  moreover from a
  have "1 / 2 = fst (rng_random \<lparr>raw = generators demo_world (spawned demo_world), drawn = 0\<rparr>)"
    and "spawned demo_after = Suc (spawned demo_world)"
    by blast+
  moreover have "fst (function_to_minimize demo_reader other_dict demo_world) =
     Inr (1 / 2, [''test_calibration'' \<mapsto> Path ''/tmp/tmp0''])"
    by (simp add: other_eval)
  moreover have "(0::real) \<le> 1 / 2 \<and> (1 / 2 :: real) < 1"
    by simp
  ultimately show ?thesis
    by blast
qed

subsection \<open>The workspace\<close>

text \<open>What each operation of the reader does to the file system, whether it returns or raises.\<close>

lemma reader_init_Inr:
  "reader_init v fs = (Inr r, fs') \<longleftrightarrow>
     (\<exists>p. v = Path p \<and> fs p \<noteq> None \<and> r = \<lparr>root_folder = Path p\<rparr> \<and> fs' = fs)"
  by (auto simp: reader_init_def ret_def raise_def split: pyval.splits)

lemma reader_copy_swat_Inr:
  "reader_copy_swat mkdtemp \<lparr>root_folder = Path p\<rparr> None fs = (Inr v, fs') \<longleftrightarrow>
     (\<exists>dir. fs p = Some dir \<and> fs (mkdtemp fs) = None \<and> v = Path (mkdtemp fs) \<and>
            fs' = fs(mkdtemp fs \<mapsto> dir))"
  by (auto simp: reader_copy_swat_def ret_def raise_def Let_def split: option.splits)

lemma reader_run_swat_Inr:
  "reader_run_swat simulate \<lparr>root_folder = Path p\<rparr> cp b fs = (Inr v, fs') \<longleftrightarrow>
     (\<exists>dir. fs p = Some dir \<and> fst (simulate cp dir) = None \<and> v = Path p \<and>
            fs' = fs(p \<mapsto> snd (simulate cp dir)))"
  by (auto simp: reader_run_swat_def ret_def raise_def split: option.splits prod.splits)

lemma reader_init_outcome:
  "reader_init v fs = (outcome, fs') \<Longrightarrow>
     fs' = fs \<and> (\<forall>r. outcome = Inr r \<longrightarrow> (\<exists>q. v = Path q \<and> r = \<lparr>root_folder = Path q\<rparr>))"
  by (cases v) (auto simp: reader_init_def ret_def raise_def split: if_splits)

lemma reader_copy_swat_outcome:
  assumes "reader_copy_swat mkdtemp \<lparr>root_folder = Path p\<rparr> None fs = (outcome, fs')"
  shows "fs' p = fs p \<and> (\<forall>v. outcome = Inr v \<longrightarrow> (\<exists>t. v = Path t \<and> t \<noteq> p))"
proof (cases "fs p")
  case None
  with assms show ?thesis
    by (auto simp: reader_copy_swat_def raise_def)
next
  case (Some dir)
  show ?thesis
  proof (cases "fs (mkdtemp fs) = None")
    case True
    with Some assms have "outcome = Inr (Path (mkdtemp fs))" and "fs' = fs(mkdtemp fs \<mapsto> dir)"
      by (simp_all add: reader_copy_swat_def ret_def Let_def)
    moreover from True Some have "mkdtemp fs \<noteq> p"
      by auto
    ultimately show ?thesis
      by simp
  next
    case False
    with Some assms show ?thesis
      by (auto simp: reader_copy_swat_def raise_def Let_def)
  qed
qed

lemma reader_run_swat_outcome:
  assumes "reader_run_swat simulate \<lparr>root_folder = Path t\<rparr> cp b fs = (outcome, fs')"
  shows "(\<forall>p. t \<noteq> p \<longrightarrow> fs' p = fs p) \<and> (\<forall>v. outcome = Inr v \<longrightarrow> v = Path t)"
proof (cases "fs t")
  case None
  with assms show ?thesis
    by (auto simp: reader_run_swat_def raise_def)
next
  case (Some dir)
  obtain e dir' where sim: "simulate cp dir = (e, dir')"
    by (cases "simulate cp dir")
  with Some assms show ?thesis
    by (cases e) (auto simp: reader_run_swat_def ret_def raise_def)
qed

lemma init_frame:
  "TxtinoutReader (spec_reader mkdtemp simulate) v w = (outcome, w') \<Longrightarrow>
     files w' = files w \<and>
     (\<forall>r. outcome = Inr r \<longrightarrow> (\<exists>q. v = Path q \<and> r = \<lparr>root_folder = Path q\<rparr>))"
  unfolding TxtinoutReader_def
  by (drule external_outcome) (auto simp: spec_reader_def dest: reader_init_outcome)

lemma copy_frame:
  "copy_swat (spec_reader mkdtemp simulate) \<lparr>root_folder = Path p\<rparr> None w = (outcome, w') \<Longrightarrow>
     files w' p = files w p \<and>
     (\<forall>v. outcome = Inr v \<longrightarrow> (\<exists>t. v = Path t \<and> t \<noteq> p))"
  unfolding copy_swat_def
  by (drule external_outcome) (auto simp: spec_reader_def dest: reader_copy_swat_outcome)

lemma run_frame:
  "run_swat (spec_reader mkdtemp simulate) \<lparr>root_folder = Path t\<rparr> cp b w = (outcome, w') \<Longrightarrow>
     (\<forall>p. t \<noteq> p \<longrightarrow> files w' p = files w p) \<and> (\<forall>v. outcome = Inr v \<longrightarrow> v = Path t)"
  unfolding run_swat_def
  by (drule external_outcome) (auto simp: spec_reader_def dest: reader_run_swat_outcome)

lemma default_rng_frame: "default_rng w = (outcome, w') \<Longrightarrow> files w' = files w"
  by (auto simp: default_rng_def)

text \<open>
  An evaluation that returns has made one new directory, which holds what the
  simulation left of a duplicate of the workspace, and has changed nothing else.
\<close>

lemma spec_reader_success:
  assumes run: "function_to_minimize (spec_reader mkdtemp simulate) d w = (Inr res, w')"
    and path: "d ''path_to_txtinout'' = Some (Path p)"
  shows "\<exists>t cp dir. t \<noteq> p \<and> files w t = None \<and> files w p = Some dir \<and>
           d ''calibration_params'' = Some cp \<and>
           files w' = (files w)(t \<mapsto> snd (simulate cp dir)) \<and>
           snd res = [''test_calibration'' \<mapsto> Path t] \<and>
           drop (length (calls w)) (calls w') =
             [Reader_init (Path p), Copy_swat (Path p) None (Path t), Reader_init (Path t),
              Run_swat (Path t) cp False (Path t), Reader_init (Path t), Default_rng]"
  using run
proof (rule function_to_minimize_InrE)
  fix cp p' r1 fs1 tmp fs2 r2 fs3 out fs4 r3 fs5
  assume cp: "d ''calibration_params'' = Some cp"
    and p': "d ''path_to_txtinout'' = Some p'"
    and i1: "api_init (spec_reader mkdtemp simulate) p' (files w) = (Inr r1, fs1)"
    and c: "api_copy_swat (spec_reader mkdtemp simulate) r1 None fs1 = (Inr tmp, fs2)"
    and i2: "api_init (spec_reader mkdtemp simulate) tmp fs2 = (Inr r2, fs3)"
    and r: "api_run_swat (spec_reader mkdtemp simulate) r2 cp False fs3 = (Inr out, fs4)"
    and i3: "api_init (spec_reader mkdtemp simulate) out fs4 = (Inr r3, fs5)"
    and res: "res = (next_double (generators w (spawned w) 0),
                        [''test_calibration'' \<mapsto> root_folder r3])"
    and w': "w' = w\<lparr>files := fs5,
               calls := calls w @ [Reader_init p', Copy_swat (root_folder r1) None tmp,
                          Reader_init tmp, Run_swat (root_folder r2) cp False out,
                          Reader_init out, Default_rng],
               spawned := Suc (spawned w)\<rparr>"
  define t where "t = mkdtemp (files w)"
  from p' path have [simp]: "p' = Path p" by simp
  from i1 have r1: "r1 = \<lparr>root_folder = Path p\<rparr>" and fs1: "fs1 = files w"
    by (auto simp: spec_reader_def reader_init_Inr)
  from c obtain dir where dir: "files w p = Some dir" and fresh: "files w t = None"
    and tmp: "tmp = Path t" and fs2: "fs2 = (files w)(t \<mapsto> dir)"
    unfolding r1 fs1 t_def by (auto simp: spec_reader_def reader_copy_swat_Inr)
  from dir fresh have neq: "t \<noteq> p" by auto
  from i2 have r2: "r2 = \<lparr>root_folder = Path t\<rparr>" and fs3: "fs3 = fs2"
    unfolding tmp by (auto simp: spec_reader_def reader_init_Inr)
  from r have out: "out = Path t" and fs4: "fs4 = (files w)(t \<mapsto> snd (simulate cp dir))"
    unfolding r2 fs3 fs2 by (auto simp: spec_reader_def reader_run_swat_Inr)
  from i3 have r3: "r3 = \<lparr>root_folder = Path t\<rparr>" and fs5: "fs5 = fs4"
    unfolding out by (auto simp: spec_reader_def reader_init_Inr)
  have "files w' = (files w)(t \<mapsto> snd (simulate cp dir))"
    by (simp add: w' fs5 fs4)
  moreover have "snd res = [''test_calibration'' \<mapsto> Path t]"
    by (simp add: res r3)
  moreover have "drop (length (calls w)) (calls w') =
             [Reader_init (Path p), Copy_swat (Path p) None (Path t), Reader_init (Path t),
              Run_swat (Path t) cp False (Path t), Reader_init (Path t), Default_rng]"
    by (simp add: w' r1 r2 tmp out)
  ultimately show ?thesis
    using neq fresh dir cp by blast
qed

text \<open>
  Whatever the outcome of an evaluation, the directory at \<open>path_to_txtinout\<close> is
  after it what it was before: each step either raises, and ends the evaluation, or
  returns and leaves that directory alone.
\<close>

lemma workspace_frame:
  assumes run: "function_to_minimize (spec_reader mkdtemp simulate) d w = (outcome, w')"
    and path: "d ''path_to_txtinout'' = Some (Path p)"
  shows "files w' p = files w p"
  using run unfolding function_to_minimize_def
proof (cases rule: and_thenE)
  case (raised e)
  then show ?thesis by (simp add: getitem_outcome)
next
  case (returned cp s1)
  note a1 = this
  from a1(1) have s1: "s1 = w" by (simp add: getitem_outcome)
  from a1(2) show ?thesis
  proof (cases rule: and_thenE)
    case (raised e)
    then show ?thesis by (simp add: getitem_outcome s1)
  next
    case (returned v s2)
    note a2 = this
    from a2(1) path have s2: "s2 = w" and v: "v = Path p"
      by (simp_all add: getitem_outcome s1)
    from a2(2) show ?thesis
    proof (cases rule: and_thenE)
      case (raised e)
      from init_frame [OF raised(1)] show ?thesis by (simp add: s2)
    next
      case (returned r1 s3)
      note a3 = this
      from init_frame [OF a3(1)]
      have s3: "files s3 = files w" and r1: "r1 = \<lparr>root_folder = Path p\<rparr>"
        by (simp_all add: s2 v)
      from a3(2) show ?thesis
      proof (cases rule: and_thenE)
        case (raised e)
        from copy_frame [OF raised(1) [unfolded r1]] show ?thesis by (simp add: s3)
      next
        case (returned tmp s4)
        note a4 = this
        from copy_frame [OF a4(1) [unfolded r1]] obtain t where
          s4: "files s4 p = files w p" and tmp: "tmp = Path t" and t: "t \<noteq> p"
          by (auto simp: s3)
        from a4(2) show ?thesis
        proof (cases rule: and_thenE)
          case (raised e)
          from init_frame [OF raised(1)] show ?thesis by (simp add: s4)
        next
          case (returned r2 s5)
          note a5 = this
          from init_frame [OF a5(1)]
          have s5: "files s5 = files s4" and r2: "r2 = \<lparr>root_folder = Path t\<rparr>"
            by (simp_all add: tmp)
          from a5(2) show ?thesis
          proof (cases rule: and_thenE)
            case (raised e)
            from run_frame [OF raised(1) [unfolded r2]] t show ?thesis by (simp add: s5 s4)
          next
            case (returned out s6)
            note a6 = this
            from run_frame [OF a6(1) [unfolded r2]] t have s6: "files s6 p = files w p"
              by (simp add: s5 s4)
            from a6(2) show ?thesis
            proof (cases rule: and_thenE)
              case (raised e)
              from init_frame [OF raised(1)] show ?thesis by (simp add: s6)
            next
              case (returned r3 s7)
              note a7 = this
              from init_frame [OF a7(1)] have s7: "files s7 p = files w p"
                by (simp add: s6)
              from a7(2) show ?thesis
              proof (cases rule: and_thenE)
                case (raised e)
                from default_rng_frame [OF raised(1)] show ?thesis by (simp add: s7)
              next
                case (returned rng s8)
                from default_rng_frame [OF returned(1)] returned(2) show ?thesis
                  by (simp add: s7 ret_def)
              qed
            qed
          qed
        qed
      qed
    qed
  qed
qed

text \<open>
  Claim C3. With the reader of the package, an evaluation of the objective function,
  whether it returns or raises, leaves the directory at \<open>path_to_txtinout\<close> as it
  found it. When it returns, the simulation has run in a directory that did not exist
  before and is not the workspace: that directory received a duplicate of the
  workspace, the one call of \<open>run_swat\<close> was made on it, and it is the only place
  where the file system has changed.
\<close>

theorem original_workspace_unchanged:
  assumes "function_to_minimize (spec_reader mkdtemp simulate) d w = (outcome, w')"
    and "d ''path_to_txtinout'' = Some (Path p)"
  shows "files w' p = files w p \<and>
         (\<forall>res. outcome = Inr res \<longrightarrow>
            (\<exists>t cp dir. t \<noteq> p \<and> files w t = None \<and> files w p = Some dir \<and>
               d ''calibration_params'' = Some cp \<and>
               files w' = (files w)(t \<mapsto> snd (simulate cp dir)) \<and>
               filter is_run (drop (length (calls w)) (calls w')) =
                 [Run_swat (Path t) cp False (Path t)] \<and>
               Copy_swat (Path p) None (Path t) \<in> set (drop (length (calls w)) (calls w'))))"
proof -
  have "\<exists>t cp dir. t \<noteq> p \<and> files w t = None \<and> files w p = Some dir \<and>
               d ''calibration_params'' = Some cp \<and>
               files w' = (files w)(t \<mapsto> snd (simulate cp dir)) \<and>
               filter is_run (drop (length (calls w)) (calls w')) =
                 [Run_swat (Path t) cp False (Path t)] \<and>
               Copy_swat (Path p) None (Path t) \<in> set (drop (length (calls w)) (calls w'))"
    if "outcome = Inr res" for res
  proof -
    from assms that spec_reader_success [of mkdtemp simulate d w res w' p]
    obtain t cp dir where "t \<noteq> p" "files w t = None" "files w p = Some dir"
      "d ''calibration_params'' = Some cp"
      "files w' = (files w)(t \<mapsto> snd (simulate cp dir))"
      "drop (length (calls w)) (calls w') =
             [Reader_init (Path p), Copy_swat (Path p) None (Path t), Reader_init (Path t),
              Run_swat (Path t) cp False (Path t), Reader_init (Path t), Default_rng]"
      by blast
    then show ?thesis
      by (intro exI [of _ t] exI [of _ cp] exI [of _ dir]) simp
  qed
  with workspace_frame [OF assms] show ?thesis
    by blast
qed

theorem original_workspace_unchanged_witness:
  "files demo_after txtinout_folder = files demo_world txtinout_folder \<and>
   (\<exists>t cp dir. t \<noteq> txtinout_folder \<and> files demo_world t = None \<and>
      files demo_world txtinout_folder = Some dir \<and>
      demo_dict ''calibration_params'' = Some cp \<and>
      files demo_after = (files demo_world)(t \<mapsto> snd (demo_simulate cp dir)) \<and>
      filter is_run (drop (length (calls demo_world)) (calls demo_after)) =
        [Run_swat (Path t) cp False (Path t)] \<and>
      Copy_swat (Path txtinout_folder) None (Path t)
        \<in> set (drop (length (calls demo_world)) (calls demo_after)))"
proof -
  have eval: "function_to_minimize (spec_reader demo_mkdtemp demo_simulate) demo_dict demo_world =
      (Inr (1 / 2, [''test_calibration'' \<mapsto> Path ''/tmp/tmp0'']), demo_after)"
    using demo_eval by (simp add: demo_reader_def)
  have path: "demo_dict ''path_to_txtinout'' = Some (Path txtinout_folder)"
    by (simp add: demo_dict_def)
  from original_workspace_unchanged [OF eval path] show ?thesis
    by blast
qed

subsection \<open>The optimization\<close>

lemma optimize_Inr:
  "optimize P alg n h w = (Inr h', w') \<Longrightarrow>
     \<exists>new. h' = h @ new \<and> length new = n \<and>
       (\<forall>(x, loc, f) \<in> set new. \<exists>wa wb. evaluate P x wa = (Inr (f, loc), wb))"
proof (induction n arbitrary: h w)
  case 0
  then show ?case by simp
next
  case (Suc n)
  from Suc.prems obtain f loc w1 where ev: "evaluate P (alg h) w = (Inr (f, loc), w1)"
    and rest: "optimize P alg n (h @ [(alg h, loc, f)]) w1 = (Inr h', w')"
    by (auto split: prod.splits sum.splits)
  from Suc.IH [OF rest] obtain new where new: "h' = (h @ [(alg h, loc, f)]) @ new" "length new = n"
    "\<forall>(x, loc, f) \<in> set new. \<exists>wa wb. evaluate P x wa = (Inr (f, loc), wb)"
    by blast
  let ?new = "(alg h, loc, f) # new"
  from new ev have "h' = h @ ?new \<and> length ?new = Suc n \<and>
       (\<forall>(x, loc, f) \<in> set ?new. \<exists>wa wb. evaluate P x wa = (Inr (f, loc), wb))"
    by auto
  then show ?case by blast
qed

lemma best_Some:
  "best h = Some b \<Longrightarrow> b \<in> set h \<and> (\<forall>e\<in>set h. snd (snd b) \<le> snd (snd e))"
proof (induction h arbitrary: b)
  case Nil
  then show ?case by simp
next
  case (Cons e es)
  show ?case
  proof (cases "best es")
    case None
    then have "es = []" by (cases es) (auto split: option.splits if_splits)
    with Cons.prems show ?thesis by simp
  next
    case (Some b')
    from Cons.IH [OF Some] Cons.prems Some show ?thesis
      by (auto split: if_splits)
  qed
qed

lemma minimize_pymoo_Inr:
  assumes "fst (minimize_pymoo P alg (N_eval n) w) = Inr r"
  shows "\<exists>h w'. optimize P alg n [] w = (Inr h, w') \<and> best h = Some r"
  using assms
  by (auto simp: and_then_def ret_def raise_def split: prod.splits sum.splits option.splits)

lemma evaluate_notebook_path:
  assumes "evaluate (swat_problem api) x wa = (Inr (f, loc), wb)"
  shows "\<exists>location. loc = [''test_calibration'' \<mapsto> location]"
proof -
  from assms have "function_to_minimize api
      ([''path_to_txtinout'' \<mapsto> Path txtinout_folder,
        ''calibration_params'' \<mapsto> Calibration (with_values (params (swat_problem api)) x)])
      wa = (Inr (f, loc), wb)"
    by (simp add: evaluate_def swat_problem_def)
  then show ?thesis
    by (rule function_to_minimize_InrE) blast
qed

lemma demo_run:
  "fst (run_the_optimization demo_reader demo_algorithm demo_world) =
     Inr ([48, 15 / 32], [''test_calibration'' \<mapsto> Path ''/tmp/tmp1''], 0)"
  by (simp add: run_the_optimization_def n_simulations_def eval_nat_numeral evaluate_def
      swat_problem_def demo_algorithm_def objective_defs demo_defs)

text \<open>
  Claim C2. When the call \<open>minimize_pymoo(swat_problem, algorithm, termination)\<close> of
  the notebook returns, it returns three values \<open>x\<close>, \<open>path\<close> and \<open>error\<close>:
  the optimizer has made \<open>n_simulations\<close> evaluations of the objective function, the
  three values are the vector, the output location and the fitness of one of them, no
  evaluation has a smaller fitness, and the second value holds the output location of
  that run under the label \<open>test_calibration\<close>.
\<close>

theorem minimize_pymoo_returns_best:
  assumes "fst (run_the_optimization api alg w) = Inr (x, path, error)"
  shows "\<exists>h w'. optimize (swat_problem api) alg n_simulations [] w = (Inr h, w') \<and>
           length h = n_simulations \<and>
           (x, path, error) \<in> set h \<and>
           (\<forall>(x', path', error') \<in> set h.
              error \<le> error' \<and>
              (\<exists>wa wb. evaluate (swat_problem api) x' wa = (Inr (error', path'), wb))) \<and>
           (\<exists>location. path = [''test_calibration'' \<mapsto> location])"
proof -
  from assms obtain h w' where
    opt: "optimize (swat_problem api) alg n_simulations [] w = (Inr h, w')"
    and b: "best h = Some (x, path, error)"
    unfolding run_the_optimization_def by (blast dest: minimize_pymoo_Inr)
  from optimize_Inr [OF opt] have len: "length h = n_simulations"
    and evals: "\<forall>(x', path', error') \<in> set h.
        \<exists>wa wb. evaluate (swat_problem api) x' wa = (Inr (error', path'), wb)"
    by auto
  from best_Some [OF b] have mem: "(x, path, error) \<in> set h"
    and least: "\<forall>e\<in>set h. error \<le> snd (snd e)"
    by auto
  from mem evals obtain wa wb where
    "evaluate (swat_problem api) x wa = (Inr (error, path), wb)"
    by blast
  then have "\<exists>location. path = [''test_calibration'' \<mapsto> location]"
    by (rule evaluate_notebook_path)
  moreover from least evals have "\<forall>(x', path', error') \<in> set h.
              error \<le> error' \<and>
              (\<exists>wa wb. evaluate (swat_problem api) x' wa = (Inr (error', path'), wb))"
    by fastforce
  ultimately show ?thesis
    using opt len mem by blast
qed

theorem minimize_pymoo_returns_best_witness:
  "\<exists>h w'. optimize (swat_problem demo_reader) demo_algorithm n_simulations [] demo_world =
             (Inr h, w') \<and>
           length h = n_simulations \<and>
           ([48, 15 / 32], [''test_calibration'' \<mapsto> Path ''/tmp/tmp1''], 0) \<in> set h \<and>
           (\<exists>wa wb. evaluate (swat_problem demo_reader) [48, 15 / 32] wa =
              (Inr (0, [''test_calibration'' \<mapsto> Path ''/tmp/tmp1'']), wb)) \<and>
           (\<exists>location. [''test_calibration'' \<mapsto> Path ''/tmp/tmp1''] =
              [''test_calibration'' \<mapsto> location])"
  using minimize_pymoo_returns_best [OF demo_run] by fast

end
